theory Spec2Isabelle
  imports Complex_Main "HOL-Library.AList" "HOL-Library.Word"
begin

section \<open>Schema registry client of the latency tick store\<close>

text \<open>
  A shallow embedding of \<^verbatim>\<open>SchemaRegistryClient\<close> from
  \<^verbatim>\<open>src/examples/latency_tick_store_integration.cpp\<close>: the TTL cache in front of the
  registry (\<^verbatim>\<open>fetch_schema\<close>), the translation of a schema document into Arrow fields
  (\<^verbatim>\<open>create_arrow_schema\<close>), the body of the eviction loop
  (\<^verbatim>\<open>monitor_schema_updates\<close>) and the statistics snapshot (\<^verbatim>\<open>get_stats\<close>).

  Exceptions are values of the type \<open>error\<close>; a member function that mutates the client
  returns the new client beside its result, also when it throws (the counters it bumped
  before the throw stay bumped). The two threads of the program are not modelled: every
  function below is one uninterrupted call.
\<close>

subsection \<open>Values of the libraries\<close>

text \<open>
  A \<^verbatim>\<open>double\<close>, as far as the program looks at one: the quotient of two integers. The
  special values of IEEE 754 are kept apart from the finite ones; the rounding of a finite
  quotient to binary64 is not modelled.
\<close>

datatype double = Finite real | PosInf | NegInf | NaN

text \<open>
  \<^verbatim>\<open>nlohmann::json\<close>. An object is a \<^verbatim>\<open>std::map\<close>: the list holds its members in the
  order the map iterates them (ascending keys, each key once). The two integer kinds of
  the library are one constructor here.
\<close>

datatype json =
    JNull
  | JBool bool
  | JInt int
  | JFloat double
  | JString string
  | JArray "json list"
  | JObject "(string \<times> json) list"

text \<open>
  What the program can throw. \<open>TypeError\<close> and \<open>InvalidIterator\<close> carry the id of
  \<^verbatim>\<open>json::type_error\<close> and \<^verbatim>\<open>json::invalid_iterator\<close>; \<open>ParseError\<close> is
  \<^verbatim>\<open>json::parse_error\<close>; the three \<^verbatim>\<open>std::runtime_error\<close>s of \<^verbatim>\<open>fetch_schema\<close> are
  told apart by what their message is built from. \<open>AssertionFailed\<close> is the
  \<^verbatim>\<open>JSON_ASSERT\<close> of the const \<^verbatim>\<open>operator[]\<close> on a missing key: the process aborts
  (with \<^verbatim>\<open>NDEBUG\<close> the behaviour is undefined); no field list is returned either way.
\<close>

datatype error =
    CurlInitFailed
  | CurlRequestFailed nat
  | HttpFailed int
  | ParseError
  | TypeError nat
  | InvalidIterator nat
  | AssertionFailed

definition json_contains :: "json \<Rightarrow> string \<Rightarrow> bool" where
  \<comment> \<open>\<^verbatim>\<open>j.contains(key)\<close>: false on everything but an object\<close>
  "json_contains j key = (case j of JObject kvs \<Rightarrow> map_of kvs key \<noteq> None | _ \<Rightarrow> False)"

definition index_const :: "json \<Rightarrow> string \<Rightarrow> error + json" where
  \<comment> \<open>\<^verbatim>\<open>j[key]\<close> on a \<^verbatim>\<open>const json\<close>\<close>
  "index_const j key =
     (case j of
        JObject kvs \<Rightarrow> (case map_of kvs key of Some v \<Rightarrow> Inr v | None \<Rightarrow> Inl AssertionFailed)
      | _ \<Rightarrow> Inl (TypeError 305))"

definition index_mut :: "json \<Rightarrow> string \<Rightarrow> error + (json \<times> json)" where
  \<comment> \<open>\<^verbatim>\<open>j[key]\<close> on a non-const \<^verbatim>\<open>json\<close>: null becomes an object, a missing key is
      inserted with the value null. Returns the container as it is afterwards and the
      member. (The program never iterates a container after this call, so where in the
      list the new member stands is not observed.)\<close>
  "index_mut j key =
     (case j of
        JNull \<Rightarrow> Inr (JObject [(key, JNull)], JNull)
      | JObject kvs \<Rightarrow>
          (case map_of kvs key of
             Some v \<Rightarrow> Inr (JObject kvs, v)
           | None \<Rightarrow> Inr (JObject (AList.update key JNull kvs), JNull))
      | _ \<Rightarrow> Inl (TypeError 305))"

definition get_string :: "json \<Rightarrow> error + string" where
  \<comment> \<open>the implicit conversion \<^verbatim>\<open>std::string s = j;\<close>\<close>
  "get_string j = (case j of JString s \<Rightarrow> Inr s | _ \<Rightarrow> Inl (TypeError 302))"

definition value_string :: "json \<Rightarrow> string \<Rightarrow> string \<Rightarrow> error + string" where
  \<comment> \<open>\<^verbatim>\<open>j.value(key, default_value)\<close> with a string default\<close>
  "value_string j key default_value =
     (case j of
        JObject kvs \<Rightarrow>
          (case map_of kvs key of Some v \<Rightarrow> get_string v | None \<Rightarrow> Inr default_value)
      | _ \<Rightarrow> Inl (TypeError 306))"

definition json_items :: "json \<Rightarrow> (string option \<times> json) list" where
  \<comment> \<open>what \<^verbatim>\<open>begin()\<close> to \<^verbatim>\<open>end()\<close> visits: the members of an object (with their
      keys), the elements of an array, nothing for null, the value itself for any other
      value. \<^verbatim>\<open>it.key()\<close> exists only for the members of an object.\<close>
  "json_items j =
     (case j of
        JObject kvs \<Rightarrow> map (\<lambda>(k, v). (Some k, v)) kvs
      | JArray xs \<Rightarrow> map (\<lambda>v. (None, v)) xs
      | JNull \<Rightarrow> []
      | _ \<Rightarrow> [(None, j)])"

text \<open>Arrow's data types and fields, as far as the translation builds them.\<close>

datatype time_unit = SECOND | MILLI | MICRO | NANO

datatype arrow_type = Int32 | Int64 | Float32 | Float64 | Utf8 | Timestamp time_unit

datatype arrow_field = ArrowField (field_name: string) (field_type: arrow_type)

subsection \<open>The client\<close>

text \<open>
  The members of \<^verbatim>\<open>SchemaRegistryClient\<close>. An \<^verbatim>\<open>unordered_map\<close> is an association list
  (\<open>map_of\<close> is \<^verbatim>\<open>find\<close>, \<open>AList.update\<close> is \<^verbatim>\<open>m[k] = v\<close>, \<open>AList.delete\<close> is
  \<^verbatim>\<open>erase\<close>); a \<^verbatim>\<open>steady_clock::time_point\<close> is its count of nanoseconds since the
  clock's epoch; an \<^verbatim>\<open>atomic<int>\<close> is a 32-bit word, whose \<open>+ 1\<close> wraps as the atomic
  increment does.
\<close>

record client =
  base_url :: string
  auth_token :: string
  schema_cache :: "(string \<times> json) list"
  cache_timestamps :: "(string \<times> int) list"
  cache_hits :: "32 word"
  cache_misses :: "32 word"
  schema_fetches :: "32 word"

definition new_client :: "string \<Rightarrow> string \<Rightarrow> client" where
  \<comment> \<open>the constructor\<close>
  "new_client url token =
     \<lparr>base_url = url, auth_token = token, schema_cache = [], cache_timestamps = [],
      cache_hits = 0, cache_misses = 0, schema_fetches = 0\<rparr>"

definition cache_ttl :: int where
  \<comment> \<open>\<^verbatim>\<open>std::chrono::seconds cache_ttl_{600}\<close>, in nanoseconds, the unit it is compared in\<close>
  "cache_ttl = 600 * 1000000000"

text \<open>
  What libcurl and the JSON parser, which are not part of the repository, answer to one
  request: whether \<^verbatim>\<open>curl_easy_init\<close> gave a handle, the \<^verbatim>\<open>CURLcode\<close> of
  \<^verbatim>\<open>curl_easy_perform\<close> (0 is \<^verbatim>\<open>CURLE_OK\<close>), the response code, and
  \<^verbatim>\<open>json::parse(response)\<close> (\<open>None\<close> when it throws). The registry is a function from
  the URL and the request headers to such an answer.
\<close>

record curl_outcome =
  handle_ok :: bool
  res :: nat
  http_code :: int
  parsed :: "json option"

type_synonym registry = "string \<Rightarrow> string list \<Rightarrow> curl_outcome"

definition cache_key_of :: "string \<Rightarrow> string \<Rightarrow> string" where
  \<comment> \<open>line 60: \<^verbatim>\<open>schema_id + (version.empty() ? "" : ":" + version)\<close>\<close>
  "cache_key_of schema_id version = schema_id @ (if version = [] then [] else '':'' @ version)"

definition timestamp_at :: "(string \<times> int) list \<Rightarrow> string \<Rightarrow> int \<times> (string \<times> int) list" where
  \<comment> \<open>line 65: \<^verbatim>\<open>cache_timestamps_[cache_key]\<close> as a read; a missing key is inserted with
      the epoch\<close>
  "timestamp_at ts key =
     (case map_of ts key of Some t \<Rightarrow> (t, ts) | None \<Rightarrow> (0, AList.update key 0 ts))"

definition request_url :: "client \<Rightarrow> string \<Rightarrow> string \<Rightarrow> string" where
  \<comment> \<open>lines 81 to 84\<close>
  "request_url c schema_id version =
     base_url c @ ''/schema/'' @ schema_id
     @ (if version = [] then [] else ''?version='' @ version)"

definition request_headers :: "client \<Rightarrow> string list" where
  \<comment> \<open>lines 93 to 98\<close>
  "request_headers c =
     (if auth_token c = [] then [] else [''Authorization: Bearer '' @ auth_token c])"

definition fetch_from_registry ::
    "registry \<Rightarrow> client \<Rightarrow> int \<Rightarrow> string \<Rightarrow> string \<Rightarrow> (error + json) \<times> client" where
  \<comment> \<open>lines 72 to 122 of \<^verbatim>\<open>fetch_schema\<close>: what it does once the cache has not answered\<close>
  "fetch_from_registry net c now schema_id version =
     (let c1 = c\<lparr>cache_misses := cache_misses c + 1, schema_fetches := schema_fetches c + 1\<rparr>;
          answer = net (request_url c schema_id version) (request_headers c)
      in if \<not> handle_ok answer then (Inl CurlInitFailed, c1)
         else if res answer \<noteq> 0 then (Inl (CurlRequestFailed (res answer)), c1)
         else if http_code answer \<noteq> 200 then (Inl (HttpFailed (http_code answer)), c1)
         else (case parsed answer of
                 None \<Rightarrow> (Inl ParseError, c1)
               | Some response_json \<Rightarrow>
                   (case index_mut response_json ''schema'' of
                      Inl e \<Rightarrow> (Inl e, c1)
                    | Inr (_, schema_data) \<Rightarrow>
                        (Inr schema_data,
                         c1\<lparr>schema_cache :=
                               AList.update (cache_key_of schema_id version) schema_data
                                 (schema_cache c1),
                             cache_timestamps :=
                               AList.update (cache_key_of schema_id version) now
                                 (cache_timestamps c1)\<rparr>))))"

definition fetch_schema ::
    "registry \<Rightarrow> client \<Rightarrow> int \<Rightarrow> string \<Rightarrow> string \<Rightarrow> (error + json) \<times> client" where
  \<comment> \<open>\<^verbatim>\<open>now\<close> is what \<^verbatim>\<open>steady_clock::now()\<close> returns on line 61\<close>
  "fetch_schema net c now schema_id version =
     (case map_of (schema_cache c) (cache_key_of schema_id version) of
        Some doc \<Rightarrow>
          (let (cache_time, ts) =
                 timestamp_at (cache_timestamps c) (cache_key_of schema_id version);
               c0 = c\<lparr>cache_timestamps := ts\<rparr>
           in if now - cache_time < cache_ttl
              then (Inr doc, c0\<lparr>cache_hits := cache_hits c0 + 1\<rparr>)
              else fetch_from_registry net c0 now schema_id version)
      | None \<Rightarrow> fetch_from_registry net c now schema_id version)"

subsection \<open>Translation to Arrow fields\<close>

definition native_type :: "string \<Rightarrow> json \<Rightarrow> error + arrow_type" where
  \<comment> \<open>lines 139 to 161: the chain of comparisons on \<^verbatim>\<open>type_name\<close>; \<open>ft\<close> is
      \<^verbatim>\<open>field_type\<close>\<close>
  "native_type type_name ft =
     (if type_name = ''int32'' then Inr Int32
      else if type_name = ''int64'' then Inr Int64
      else if type_name = ''float32'' then Inr Float32
      else if type_name = ''float64'' then Inr Float64
      else if type_name = ''utf8'' then Inr Utf8
      else if type_name = ''timestamp'' then
        (case value_string ft ''unit'' ''us'' of
           Inl e \<Rightarrow> Inl e
         | Inr unit \<Rightarrow>
             if unit = ''us'' then Inr (Timestamp MICRO)
             else if unit = ''ns'' then Inr (Timestamp NANO)
             else Inr (Timestamp SECOND))
      else Inr Utf8)"

definition native_field :: "json \<Rightarrow> error + arrow_field" where
  \<comment> \<open>lines 133 to 163: the body of the loop over \<^verbatim>\<open>arrow.fields\<close>\<close>
  "native_field field =
     (case index_const field ''name'' of Inl e \<Rightarrow> Inl e | Inr nm \<Rightarrow>
     (case get_string nm of Inl e \<Rightarrow> Inl e | Inr name \<Rightarrow>
     (case index_const field ''type'' of Inl e \<Rightarrow> Inl e | Inr ft \<Rightarrow>
     (case index_mut ft ''name'' of Inl e \<Rightarrow> Inl e | Inr (ft', tn) \<Rightarrow>
     (case get_string tn of Inl e \<Rightarrow> Inl e | Inr type_name \<Rightarrow>
     (case native_type type_name ft' of Inl e \<Rightarrow> Inl e | Inr arrow_type \<Rightarrow>
        Inr (ArrowField name arrow_type)))))))"

definition json_type_to_arrow :: "string \<Rightarrow> arrow_type" where
  \<comment> \<open>lines 175 to 183\<close>
  "json_type_to_arrow json_type =
     (if json_type = ''integer'' then Int64
      else if json_type = ''number'' then Float64
      else if json_type = ''string'' then Utf8
      else Utf8)"

definition property_field :: "string option \<times> json \<Rightarrow> error + arrow_field" where
  \<comment> \<open>lines 169 to 185: the body of the loop over \<^verbatim>\<open>properties\<close>; \<open>it\<close> is the
      iterator's key (if it has one) and value\<close>
  "property_field it =
     (case fst it of None \<Rightarrow> Inl (InvalidIterator 207) | Some name \<Rightarrow>
     (case index_mut (snd it) ''type'' of Inl e \<Rightarrow> Inl e | Inr (_, jt) \<Rightarrow>
     (case get_string jt of Inl e \<Rightarrow> Inl e | Inr json_type \<Rightarrow>
        Inr (ArrowField name (json_type_to_arrow json_type)))))"

fun push_fields ::
    "('a \<Rightarrow> error + arrow_field) \<Rightarrow> 'a list \<Rightarrow> arrow_field list \<Rightarrow> error + arrow_field list" where
  \<comment> \<open>either loop: each element's field is pushed onto the vector \<open>fs\<close>; the first
      throw ends the loop\<close>
  "push_fields body [] fs = Inr fs"
| "push_fields body (x # xs) fs =
     (case body x of Inl e \<Rightarrow> Inl e | Inr f \<Rightarrow> push_fields body xs (fs @ [f]))"

definition has_arrow_fields :: "json \<Rightarrow> bool" where
  \<comment> \<open>line 130\<close>
  "has_arrow_fields schema_json =
     (json_contains schema_json ''arrow'' \<and>
      (case index_const schema_json ''arrow'' of
         Inr a \<Rightarrow> json_contains a ''fields''
       | Inl _ \<Rightarrow> False))"

definition create_arrow_schema :: "json \<Rightarrow> error + arrow_field list" where
  "create_arrow_schema schema_json =
     (if has_arrow_fields schema_json then
        (case index_const schema_json ''arrow'' of Inl e \<Rightarrow> Inl e | Inr a \<Rightarrow>
        (case index_const a ''fields'' of Inl e \<Rightarrow> Inl e | Inr arrow_fields \<Rightarrow>
           push_fields native_field (map snd (json_items arrow_fields)) []))
      else
        (case index_const schema_json ''properties'' of Inl e \<Rightarrow> Inl e | Inr properties \<Rightarrow>
           push_fields property_field (json_items properties) []))"

subsection \<open>Eviction and statistics\<close>

fun expired_keys :: "int \<Rightarrow> (string \<times> int) list \<Rightarrow> string list" where
  \<comment> \<open>lines 220 to 224\<close>
  "expired_keys now [] = []"
| "expired_keys now ((key, t) # rest) =
     (if now - t > cache_ttl then key # expired_keys now rest else expired_keys now rest)"

fun erase_keys :: "string list \<Rightarrow> client \<Rightarrow> client" where
  \<comment> \<open>lines 226 to 229\<close>
  "erase_keys [] c = c"
| "erase_keys (key # keys) c =
     erase_keys keys
       (c\<lparr>schema_cache := AList.delete key (schema_cache c),
          cache_timestamps := AList.delete key (cache_timestamps c)\<rparr>)"

definition sweep_expired :: "client \<Rightarrow> int \<Rightarrow> client" where
  \<comment> \<open>lines 217 to 229: one round of the loop of \<^verbatim>\<open>monitor_schema_updates\<close>, after its
      sleep, with \<^verbatim>\<open>now\<close> read from the clock\<close>
  "sweep_expired c now = erase_keys (expired_keys now (cache_timestamps c)) c"

definition double_div :: "int \<Rightarrow> int \<Rightarrow> double" where
  \<comment> \<open>\<^verbatim>\<open>a / (double)b\<close> for two \<^verbatim>\<open>int\<close>s under IEEE 754\<close>
  "double_div a b =
     (if b = 0 then (if a = 0 then NaN else if a > 0 then PosInf else NegInf)
      else Finite (real_of_int a / real_of_int b))"

record stats =
  stat_cache_hits :: int
  stat_cache_misses :: int
  stat_schema_fetches :: int
  stat_cache_size :: nat
  stat_cache_hit_ratio :: double

definition get_stats :: "client \<Rightarrow> stats" where
  \<comment> \<open>lines 239 to 247; the sum of the two counters is an \<^verbatim>\<open>int\<close> sum\<close>
  "get_stats c =
     \<lparr>stat_cache_hits = sint (cache_hits c),
      stat_cache_misses = sint (cache_misses c),
      stat_schema_fetches = sint (schema_fetches c),
      stat_cache_size = length (schema_cache c),
      stat_cache_hit_ratio =
        double_div (sint (cache_hits c)) (sint (cache_hits c + cache_misses c))\<rparr>"

subsection \<open>Vocabulary of the properties\<close>

text \<open>
  Not code of the client: the shapes of documents the properties below speak about.
  \<open>string_member j key\<close> is the member \<open>key\<close> of \<open>j\<close> when \<open>j\<close> is an object and that
  member is a string. An entry of \<^verbatim>\<open>arrow.fields\<close> is well formed when its name is a
  string and its type an object whose name is a string (and whose unit, where a timestamp
  has one, is a string); a property is well formed when its type is a string.
\<close>

definition string_member :: "json \<Rightarrow> string \<Rightarrow> string option" where
  "string_member j key =
     (case j of
        JObject kvs \<Rightarrow>
          (case map_of kvs key of
             Some v \<Rightarrow> (case v of JString s \<Rightarrow> Some s | _ \<Rightarrow> None)
           | None \<Rightarrow> None)
      | _ \<Rightarrow> None)"

definition wf_native_entry :: "json \<Rightarrow> bool" where
  "wf_native_entry e =
     (string_member e ''name'' \<noteq> None \<and>
      (case index_const e ''type'' of
         Inr t \<Rightarrow>
           string_member t ''name'' \<noteq> None \<and>
           (string_member t ''name'' = Some ''timestamp'' \<and> json_contains t ''unit''
              \<longrightarrow> string_member t ''unit'' \<noteq> None)
       | Inl _ \<Rightarrow> False))"

definition wf_property :: "json \<Rightarrow> bool" where
  "wf_property p = (string_member p ''type'' \<noteq> None)"

text \<open>
  The two maps of the cache are consistent when every key with a document has a timestamp.
  It holds of a new client, and every call of \<^verbatim>\<open>fetch_schema\<close> and every sweep keeps it
  (\<open>cache_consistent_new\<close>, \<open>cache_consistent_fetch\<close>, \<open>cache_consistent_sweep\<close> below).
\<close>

definition cache_consistent :: "client \<Rightarrow> bool" where
  "cache_consistent c = (fst ` set (schema_cache c) \<subseteq> fst ` set (cache_timestamps c))"

text \<open>The documents of the scenarios B and C of the specification.\<close>

definition scenario_B_fields :: "json list" where
  "scenario_B_fields =
     [JObject [(''name'', JString ''ts''),
               (''type'', JObject [(''name'', JString ''timestamp''), (''unit'', JString ''ns'')])],
      JObject [(''name'', JString ''px''),
               (''type'', JObject [(''name'', JString ''float64'')])]]"

definition scenario_C_properties :: "(string \<times> json) list" where
  "scenario_C_properties =
     [(''qty'', JObject [(''type'', JString ''integer'')]),
      (''sym'', JObject [(''type'', JString ''string'')])]"

text \<open>Further documents the properties are tried on.\<close>

definition two_timestamps :: "json list" where
  "two_timestamps =
     [JObject [(''name'', JString ''ts''),
               (''type'', JObject [(''name'', JString ''timestamp'')])],
      JObject [(''name'', JString ''at''),
               (''type'', JObject [(''name'', JString ''timestamp''), (''unit'', JString ''ms'')])]]"

definition unknown_native :: "json list" where
  "unknown_native =
     [JObject [(''name'', JString ''px''),
               (''type'', JObject [(''name'', JString ''decimal128'')])]]"

definition unknown_kind_properties :: "(string \<times> json) list" where
  "unknown_kind_properties = [(''live'', JObject [(''type'', JString ''boolean'')])]"

text \<open>
  Registries and clients the properties are tried on: a registry that gives every request
  the same answer, the answer 200 with a parsed body, the registry of scenario A, one that
  cannot be connected to (\<^verbatim>\<open>CURLE_COULDNT_CONNECT\<close> is 7), the client of \<^verbatim>\<open>main\<close>,
  and that client holding one document fetched at time 0.
\<close>

definition answering :: "curl_outcome \<Rightarrow> registry" where
  "answering a = (\<lambda>url headers. a)"

definition ok_body :: "json \<Rightarrow> curl_outcome" where
  "ok_body b = \<lparr>handle_ok = True, res = 0, http_code = 200, parsed = Some b\<rparr>"

definition ticks_document :: json where
  "ticks_document = JObject [(''title'', JString ''ticks'')]"

definition ticks_registry :: registry where
  "ticks_registry = answering (ok_body (JObject [(''schema'', ticks_document)]))"

definition unreachable_registry :: registry where
  "unreachable_registry = answering \<lparr>handle_ok = True, res = 7, http_code = 0, parsed = None\<rparr>"

definition local_client :: client where
  "local_client = new_client ''http://localhost:8000'' []"

definition boundary_client :: client where
  "boundary_client =
     local_client\<lparr>schema_cache := [(''ticks_v1'', ticks_document)],
                  cache_timestamps := [(''ticks_v1'', 0)]\<rparr>"

section \<open>Properties\<close>

subsection \<open>The two loops of the translation\<close>

lemma push_fields_Inr:
  "push_fields body xs acc = Inr out \<longleftrightarrow>
     (\<exists>fs. out = acc @ fs \<and> list_all2 (\<lambda>x f. body x = Inr f) xs fs)"
proof (induction xs arbitrary: acc)
  case Nil
  show ?case by auto
next
  case (Cons x xs)
  show ?case
  proof (cases "body x")
    case (Inl e)
    then show ?thesis by (auto simp: list_all2_Cons1)
  next
    case (Inr f)
    then show ?thesis by (auto simp: Cons.IH list_all2_Cons1)
  qed
qed


lemma push_fields_total:
  "list_all (\<lambda>x. \<exists>f. body x = Inr f) xs \<Longrightarrow> \<exists>out. push_fields body xs acc = Inr out"
proof (induction xs arbitrary: acc)
  case Nil
  then show ?case by simp
next
  case (Cons y ys)
  then show ?case by (cases "body y") auto
qed

lemma string_memberD:
  "string_member j key = Some s \<Longrightarrow> \<exists>kvs. j = JObject kvs \<and> map_of kvs key = Some (JString s)"
  unfolding string_member_def
  by (cases j; simp split: option.split_asm json.split_asm)

lemma native_type_total:
  "tn \<noteq> ''timestamp'' \<or> map_of t ''unit'' = None \<or> (\<exists>u. map_of t ''unit'' = Some (JString u))
    \<Longrightarrow> \<exists>ty. native_type tn (JObject t) = Inr ty"
  by (auto simp: native_type_def value_string_def get_string_def)

lemma wf_native_entry_field:
  assumes "wf_native_entry e"
  shows "\<exists>n ty. string_member e ''name'' = Some n \<and> native_field e = Inr (ArrowField n ty)"
proof -
  from assms obtain n where sn: "string_member e ''name'' = Some n"
    unfolding wf_native_entry_def by blast
  then obtain kvs where e: "e = JObject kvs" and n: "map_of kvs ''name'' = Some (JString n)"
    by (blast dest: string_memberD)
  from assms e obtain t tname where t: "map_of kvs ''type'' = Some t"
    and tn: "string_member t ''name'' = Some tname"
    and u: "tname = ''timestamp'' \<and> json_contains t ''unit''
              \<longrightarrow> string_member t ''unit'' \<noteq> None"
    by (auto simp: wf_native_entry_def index_const_def split: option.split_asm sum.split_asm)
  from tn obtain tkvs where t': "t = JObject tkvs"
    and tname: "map_of tkvs ''name'' = Some (JString tname)"
    by (blast dest: string_memberD)
  from u t' have "tname \<noteq> ''timestamp'' \<or> map_of tkvs ''unit'' = None
      \<or> (\<exists>u. map_of tkvs ''unit'' = Some (JString u))"
    by (auto simp: json_contains_def dest!: string_memberD)
  then obtain ty where "native_type tname (JObject tkvs) = Inr ty"
    using native_type_total by blast
  with e n t t' tname sn show ?thesis
    by (simp add: native_field_def index_const_def index_mut_def get_string_def)
qed

lemma wf_property_field:
  assumes "string_member p ''type'' = Some kind"
  shows "property_field (Some k, p) = Inr (ArrowField k (json_type_to_arrow kind))"
proof -
  from assms obtain kvs where "p = JObject kvs" "map_of kvs ''type'' = Some (JString kind)"
    by (blast dest: string_memberD)
  then show ?thesis
    by (simp add: property_field_def index_const_def index_mut_def get_string_def)
qed


lemma native_field_eval:
  assumes "string_member e ''name'' = Some n" "index_const e ''type'' = Inr t"
    "string_member t ''name'' = Some tn"
  shows "native_field e
           = (case native_type tn t of Inl x \<Rightarrow> Inl x | Inr ty \<Rightarrow> Inr (ArrowField n ty))"
proof -
  from assms(1) obtain kvs where e: "e = JObject kvs" "map_of kvs ''name'' = Some (JString n)"
    by (blast dest: string_memberD)
  from assms(3) obtain tkvs where t: "t = JObject tkvs" "map_of tkvs ''name'' = Some (JString tn)"
    by (blast dest: string_memberD)
  from assms(2) e t show ?thesis
    by (simp add: native_field_def index_const_def index_mut_def get_string_def
        split: option.split_asm)
qed

lemma create_native:
  assumes "map_of kvs ''arrow'' = Some a" "index_const a ''fields'' = Inr fs"
  shows "create_arrow_schema (JObject kvs)
           = push_fields native_field (map snd (json_items fs)) []"
  using assms
  by (auto simp: create_arrow_schema_def has_arrow_fields_def json_contains_def index_const_def
      split: json.split_asm option.split_asm)

lemma create_generic:
  assumes "\<not> has_arrow_fields (JObject kvs)" "map_of kvs ''properties'' = Some p"
  shows "create_arrow_schema (JObject kvs) = push_fields property_field (json_items p) []"
  using assms by (simp add: create_arrow_schema_def index_const_def)

lemma create_native_wf:
  assumes "map_of kvs ''arrow'' = Some a" "index_const a ''fields'' = Inr (JArray es)"
    "list_all wf_native_entry es"
  shows "\<exists>out. create_arrow_schema (JObject kvs) = Inr out \<and>
               list_all2 (\<lambda>e f. native_field e = Inr f) es out"
proof -
  have "list_all (\<lambda>e. \<exists>f. native_field e = Inr f) es"
    using assms(3) wf_native_entry_field by (fastforce simp: list_all_iff)
  then obtain out where "push_fields native_field es [] = Inr out"
    using push_fields_total by blast
  moreover from this have "list_all2 (\<lambda>e f. native_field e = Inr f) es out"
    by (simp add: push_fields_Inr)
  ultimately show ?thesis
    using create_native[OF assms(1,2)] by (simp add: json_items_def comp_def)
qed

lemma create_generic_wf:
  assumes "\<not> has_arrow_fields (JObject kvs)" "map_of kvs ''properties'' = Some (JObject ps)"
    "map (\<lambda>p. string_member p ''type'') (map snd ps) = map Some kinds"
  shows "create_arrow_schema (JObject kvs)
           = Inr (map2 (\<lambda>k kind. ArrowField k (json_type_to_arrow kind)) (map fst ps) kinds)"
proof -
  have "list_all2 (\<lambda>x f. property_field x = Inr f) (map (\<lambda>(k, v). (Some k, v)) ps)
          (map2 (\<lambda>k kind. ArrowField k (json_type_to_arrow kind)) (map fst ps) kinds)"
    using assms(3)
  proof (induction ps arbitrary: kinds)
    case Nil
    then show ?case by simp
  next
    case (Cons x xs)
    then obtain kind rest where "kinds = kind # rest" by (cases kinds) auto
    with Cons show ?case by (cases x) (auto simp: wf_property_field)
  qed
  then have "push_fields property_field (map (\<lambda>(k, v). (Some k, v)) ps) []
          = Inr (map2 (\<lambda>k kind. ArrowField k (json_type_to_arrow kind)) (map fst ps) kinds)"
    by (simp add: push_fields_Inr)
  with create_generic[OF assms(1,2)] show ?thesis by (simp add: json_items_def)
qed



lemmas json_simps =
  string_member_def wf_native_entry_def wf_property_def index_const_def json_contains_def
  has_arrow_fields_def

lemmas translate_simps =
  create_arrow_schema_def has_arrow_fields_def json_contains_def index_const_def index_mut_def
  get_string_def value_string_def json_items_def native_field_def native_type_def
  property_field_def json_type_to_arrow_def


lemma scenario_B_translation:
  "create_arrow_schema
     (JObject [(''arrow'', JObject [(''fields'', JArray scenario_B_fields)]),
               (''properties'', JObject scenario_C_properties)])
     = Inr [ArrowField ''ts'' (Timestamp NANO), ArrowField ''px'' Float64]"
  by (simp add: translate_simps scenario_B_fields_def)


subsection \<open>Type names, kinds and units\<close>

lemma native_type_unit:
  assumes "string_member t ''name'' = Some ''timestamp''"
  shows "\<not> json_contains t ''unit'' \<Longrightarrow> native_type ''timestamp'' t = Inr (Timestamp MICRO)"
    and "string_member t ''unit'' = Some u \<Longrightarrow>
           native_type ''timestamp'' t
             = Inr (Timestamp (if u = ''us'' then MICRO else if u = ''ns'' then NANO else SECOND))"
proof -
  from assms obtain tkvs where t: "t = JObject tkvs" by (blast dest: string_memberD)
  show "\<not> json_contains t ''unit'' \<Longrightarrow> native_type ''timestamp'' t = Inr (Timestamp MICRO)"
    using t by (simp add: native_type_def value_string_def json_contains_def)
  show "string_member t ''unit'' = Some u \<Longrightarrow>
           native_type ''timestamp'' t
             = Inr (Timestamp (if u = ''us'' then MICRO else if u = ''ns'' then NANO else SECOND))"
    using t by (auto simp: native_type_def value_string_def get_string_def dest!: string_memberD)
qed

lemma native_type_unknown:
  "tn \<notin> set [''int32'', ''int64'', ''float32'', ''float64'', ''utf8'', ''timestamp'']
     \<Longrightarrow> native_type tn t = Inr Utf8"
  by (simp add: native_type_def)

lemma create_native_nth:
  assumes "map_of kvs ''arrow'' = Some a" "index_const a ''fields'' = Inr (JArray es)"
    "list_all wf_native_entry es"
  shows "\<exists>out. create_arrow_schema (JObject kvs) = Inr out \<and> length out = length es \<and>
               (\<forall>i<length es. native_field (es ! i) = Inr (out ! i))"
proof -
  from create_native_wf[OF assms] obtain out where
    "create_arrow_schema (JObject kvs) = Inr out"
    "list_all2 (\<lambda>e f. native_field e = Inr f) es out" by blast
  then show ?thesis by (auto simp: list_all2_conv_all_nth)
qed

text \<open>
  C4, as the code has it. In a document whose \<^verbatim>\<open>arrow.fields\<close> entries are well formed,
  the field of an entry of type name timestamp has the unit microseconds when the entry's
  type has no unit member, and for a unit member \<open>u\<close> the unit microseconds when \<open>u\<close> is
  us, nanoseconds when it is ns, and seconds for any other string.
\<close>

theorem timestamp_unit_default_micro:
  assumes "map_of kvs ''arrow'' = Some a" and "index_const a ''fields'' = Inr (JArray es)"
    and "list_all wf_native_entry es"
    and "i < length es" and "index_const (es ! i) ''type'' = Inr t"
    and "string_member t ''name'' = Some ''timestamp''"
  shows "\<exists>out. create_arrow_schema (JObject kvs) = Inr out \<and> length out = length es \<and>
           (\<not> json_contains t ''unit'' \<longrightarrow> field_type (out ! i) = Timestamp MICRO) \<and>
           (\<forall>u. string_member t ''unit'' = Some u \<longrightarrow>
              field_type (out ! i)
                = Timestamp (if u = ''us'' then MICRO else if u = ''ns'' then NANO else SECOND))"
proof -
  from create_native_nth[OF assms(1-3)] obtain out where
    out: "create_arrow_schema (JObject kvs) = Inr out" "length out = length es"
    and nth: "native_field (es ! i) = Inr (out ! i)"
    using assms(4) by blast
  from assms(3,4) have "wf_native_entry (es ! i)" by (simp add: list_all_length)
  then obtain n where "string_member (es ! i) ''name'' = Some n"
    by (auto simp: wf_native_entry_def)
  from native_field_eval[OF this assms(5,6)] nth
  have ev: "Inr (out ! i)
      = (case native_type ''timestamp'' t of Inl x \<Rightarrow> Inl x | Inr ty \<Rightarrow> Inr (ArrowField n ty))"
    by simp
  have "\<not> json_contains t ''unit'' \<longrightarrow> field_type (out ! i) = Timestamp MICRO"
    using ev native_type_unit(1)[OF assms(6)] by auto
  moreover have "\<forall>u. string_member t ''unit'' = Some u \<longrightarrow>
              field_type (out ! i)
                = Timestamp (if u = ''us'' then MICRO else if u = ''ns'' then NANO else SECOND)"
    using ev native_type_unit(2)[OF assms(6)] by auto
  ultimately show ?thesis using out by blast
qed

text \<open>
  C4 as stated fails: a timestamp without a unit is translated to microseconds, the
  default of \<^verbatim>\<open>field_type.value("unit", "us")\<close>, not to seconds.
\<close>

theorem timestamp_missing_unit_counterexample:
  "create_arrow_schema
     (JObject [(''arrow'', JObject [(''fields'', JArray
        [JObject [(''name'', JString ''ts''),
                  (''type'', JObject [(''name'', JString ''timestamp'')])]])])])
     = Inr [ArrowField ''ts'' (Timestamp MICRO)] \<and>
   Timestamp MICRO \<noteq> Timestamp SECOND"
  by (simp add: translate_simps)

text \<open>
  C9, as the code has it. In a document that translates from well-formed
  \<^verbatim>\<open>arrow.fields\<close>, an entry whose type name is a string and none of int32, int64,
  float32, float64, utf8, timestamp gives a field of type utf8; in a document that
  translates from well-formed \<^verbatim>\<open>properties\<close>, a property whose kind is a string and
  none of integer, number, string gives a field of type utf8. In both the translation
  returns its fields: there is no error.
\<close>

theorem unknown_type_defaults_to_utf8:
  "(map_of kvs ''arrow'' = Some a \<and> index_const a ''fields'' = Inr (JArray es) \<and>
    list_all wf_native_entry es \<and> i < length es \<and>
    index_const (es ! i) ''type'' = Inr t \<and> string_member t ''name'' = Some tn \<and>
    tn \<notin> set [''int32'', ''int64'', ''float32'', ''float64'', ''utf8'', ''timestamp''] \<longrightarrow>
      (\<exists>out. create_arrow_schema (JObject kvs) = Inr out \<and> length out = length es \<and>
             field_type (out ! i) = Utf8))
   \<and>
   (\<not> has_arrow_fields (JObject kvs) \<and> map_of kvs ''properties'' = Some (JObject ps) \<and>
    map (\<lambda>p. string_member p ''type'') (map snd ps) = map Some kinds \<and> j < length ps \<and>
    kinds ! j \<notin> set [''integer'', ''number'', ''string''] \<longrightarrow>
      (\<exists>out. create_arrow_schema (JObject kvs) = Inr out \<and> length out = length ps \<and>
             out ! j = ArrowField (fst (ps ! j)) Utf8))"
proof (intro conjI impI)
  assume h: "map_of kvs ''arrow'' = Some a \<and> index_const a ''fields'' = Inr (JArray es) \<and>
    list_all wf_native_entry es \<and> i < length es \<and>
    index_const (es ! i) ''type'' = Inr t \<and> string_member t ''name'' = Some tn \<and>
    tn \<notin> set [''int32'', ''int64'', ''float32'', ''float64'', ''utf8'', ''timestamp'']"
  then obtain out where
    out: "create_arrow_schema (JObject kvs) = Inr out" "length out = length es"
    and nth: "native_field (es ! i) = Inr (out ! i)"
    using create_native_nth[of kvs a es] by blast
  from h have "wf_native_entry (es ! i)" by (simp add: list_all_length)
  then obtain n where "string_member (es ! i) ''name'' = Some n"
    by (auto simp: wf_native_entry_def)
  with h have "native_field (es ! i) = Inr (ArrowField n Utf8)"
    using native_field_eval[of "es ! i" n t tn] native_type_unknown[of tn t] by simp
  with nth have "out ! i = ArrowField n Utf8" by simp
  then have "field_type (out ! i) = Utf8" by simp
  with out
  show "\<exists>out. create_arrow_schema (JObject kvs) = Inr out \<and> length out = length es \<and>
             field_type (out ! i) = Utf8"
    by blast
next
  assume h: "\<not> has_arrow_fields (JObject kvs) \<and> map_of kvs ''properties'' = Some (JObject ps) \<and>
    map (\<lambda>p. string_member p ''type'') (map snd ps) = map Some kinds \<and> j < length ps \<and>
    kinds ! j \<notin> set [''integer'', ''number'', ''string'']"
  then have len: "length kinds = length ps"
    by (metis length_map)
  from h have "create_arrow_schema (JObject kvs)
           = Inr (map2 (\<lambda>k kind. ArrowField k (json_type_to_arrow kind)) (map fst ps) kinds)"
    using create_generic_wf by blast
  moreover have "json_type_to_arrow (kinds ! j) = Utf8"
    using h by (simp add: json_type_to_arrow_def)
  ultimately
  show "\<exists>out. create_arrow_schema (JObject kvs) = Inr out \<and> length out = length ps \<and>
             out ! j = ArrowField (fst (ps ! j)) Utf8"
    using h len by simp
qed


text \<open>
  C9 as stated fails: a kind or a type name that is not a string is outside the table as
  well, and the conversion to \<^verbatim>\<open>std::string\<close> (lines 171 and 135) throws type error 302
  for it; no field of type utf8 is produced.
\<close>

theorem non_string_kind_counterexample:
  "create_arrow_schema
     (JObject [(''properties'', JObject
        [(''sym'', JObject [(''type'', JArray [JString ''string'', JString ''null''])])])])
     = Inl (TypeError 302) \<and>
   create_arrow_schema
     (JObject [(''arrow'', JObject [(''fields'', JArray
        [JObject [(''name'', JString ''px''), (''type'', JObject [(''name'', JInt 5)])]])])])
     = Inl (TypeError 302)"
  by (simp add: translate_simps)

theorem timestamp_unit_default_micro_witness:
  "(\<exists>out. create_arrow_schema
             (JObject [(''arrow'', JObject [(''fields'', JArray two_timestamps)])]) = Inr out \<and>
          length out = 2 \<and> field_type (out ! 0) = Timestamp MICRO) \<and>
   (\<exists>out. create_arrow_schema
             (JObject [(''arrow'', JObject [(''fields'', JArray two_timestamps)])]) = Inr out \<and>
          length out = 2 \<and> field_type (out ! 1) = Timestamp SECOND)"
proof -
  have doc: "map_of [(''arrow'', JObject [(''fields'', JArray two_timestamps)])] ''arrow''
               = Some (JObject [(''fields'', JArray two_timestamps)])"
    "index_const (JObject [(''fields'', JArray two_timestamps)]) ''fields''
       = Inr (JArray two_timestamps)"
    "list_all wf_native_entry two_timestamps"
    by (simp_all add: json_simps two_timestamps_def)
  have e0: "0 < length two_timestamps"
    "index_const (two_timestamps ! 0) ''type'' = Inr (JObject [(''name'', JString ''timestamp'')])"
    "string_member (JObject [(''name'', JString ''timestamp'')]) ''name'' = Some ''timestamp''"
    by (simp_all add: json_simps two_timestamps_def)
  have e1: "1 < length two_timestamps"
    "index_const (two_timestamps ! 1) ''type''
       = Inr (JObject [(''name'', JString ''timestamp''), (''unit'', JString ''ms'')])"
    "string_member (JObject [(''name'', JString ''timestamp''), (''unit'', JString ''ms'')]) ''name''
       = Some ''timestamp''"
    by (simp_all add: json_simps two_timestamps_def)
  have len: "length two_timestamps = 2" by (simp add: two_timestamps_def)
  from timestamp_unit_default_micro[OF doc e0] timestamp_unit_default_micro[OF doc e1] len
  show ?thesis by (simp add: json_simps)
qed

theorem unknown_type_defaults_to_utf8_witness:
  "(\<exists>out. create_arrow_schema
             (JObject [(''arrow'', JObject [(''fields'', JArray unknown_native)])]) = Inr out \<and>
          length out = 1 \<and> field_type (out ! 0) = Utf8) \<and>
   (\<exists>out. create_arrow_schema
             (JObject [(''properties'', JObject unknown_kind_properties)]) = Inr out \<and>
          length out = 1 \<and> out ! 0 = ArrowField ''live'' Utf8)"
proof -
  have n: "map_of [(''arrow'', JObject [(''fields'', JArray unknown_native)])] ''arrow''
               = Some (JObject [(''fields'', JArray unknown_native)]) \<and>
    index_const (JObject [(''fields'', JArray unknown_native)]) ''fields''
       = Inr (JArray unknown_native) \<and>
    list_all wf_native_entry unknown_native \<and> 0 < length unknown_native \<and>
    index_const (unknown_native ! 0) ''type'' = Inr (JObject [(''name'', JString ''decimal128'')]) \<and>
    string_member (JObject [(''name'', JString ''decimal128'')]) ''name'' = Some ''decimal128'' \<and>
    ''decimal128'' \<notin> set [''int32'', ''int64'', ''float32'', ''float64'', ''utf8'', ''timestamp'']"
    by (simp add: json_simps unknown_native_def)
  have g: "\<not> has_arrow_fields (JObject [(''properties'', JObject unknown_kind_properties)]) \<and>
    map_of [(''properties'', JObject unknown_kind_properties)] ''properties''
      = Some (JObject unknown_kind_properties) \<and>
    map (\<lambda>p. string_member p ''type'') (map snd unknown_kind_properties) = map Some [''boolean''] \<and>
    0 < length unknown_kind_properties \<and>
    [''boolean''] ! 0 \<notin> set [''integer'', ''number'', ''string'']"
    by (simp add: json_simps unknown_kind_properties_def)
  have len: "length unknown_native = 1" "length unknown_kind_properties = 1"
    "fst (unknown_kind_properties ! 0) = ''live''"
    by (simp_all add: unknown_native_def unknown_kind_properties_def)
  from n g len
    unknown_type_defaults_to_utf8
      [of "[(''arrow'', JObject [(''fields'', JArray unknown_native)])]"
          "JObject [(''fields'', JArray unknown_native)]" unknown_native 0
          "JObject [(''name'', JString ''decimal128'')]" "''decimal128''"]
    unknown_type_defaults_to_utf8
      [of "[(''properties'', JObject unknown_kind_properties)]" _ _ _ _ _
          unknown_kind_properties "[''boolean'']" 0]
  show ?thesis by simp
qed










subsection \<open>The cache\<close>

lemma hit_step:
  assumes "map_of (schema_cache c) (cache_key_of i v) = Some doc"
    and "map_of (cache_timestamps c) (cache_key_of i v) = Some t"
    and "now - t < cache_ttl"
  shows "fetch_schema net c now i v = (Inr doc, c\<lparr>cache_hits := cache_hits c + 1\<rparr>)"
  using assms by (simp add: fetch_schema_def timestamp_at_def)

lemma miss_step:
  assumes "map_of (schema_cache c) (cache_key_of i v) = None \<or>
           (map_of (cache_timestamps c) (cache_key_of i v) = Some t \<and> cache_ttl \<le> now - t)"
  shows "fetch_schema net c now i v = fetch_from_registry net c now i v"
  using assms by (auto simp: fetch_schema_def timestamp_at_def split: option.splits)

lemma registry_counters:
  "cache_misses (snd (fetch_from_registry net c now i v)) = cache_misses c + 1"
  "schema_fetches (snd (fetch_from_registry net c now i v)) = schema_fetches c + 1"
  "cache_hits (snd (fetch_from_registry net c now i v)) = cache_hits c"
  by (simp_all add: fetch_from_registry_def Let_def split: option.splits sum.splits prod.splits)

lemma registry_failure:
  "fetch_from_registry net c now i v = (Inl e, c') \<Longrightarrow>
     c' = c\<lparr>cache_misses := cache_misses c + 1, schema_fetches := schema_fetches c + 1\<rparr>"
  by (auto simp: fetch_from_registry_def Let_def
      split: option.split_asm sum.split_asm prod.split_asm if_split_asm)

lemma registry_success:
  "fetch_from_registry net c now i v = (Inr d, c') \<Longrightarrow>
     c' = c\<lparr>cache_misses := cache_misses c + 1, schema_fetches := schema_fetches c + 1,
            schema_cache := AList.update (cache_key_of i v) d (schema_cache c),
            cache_timestamps := AList.update (cache_key_of i v) now (cache_timestamps c)\<rparr>"
  by (auto simp: fetch_from_registry_def Let_def
      split: option.split_asm sum.split_asm prod.split_asm if_split_asm)

lemma registry_answer:
  assumes "a = net (request_url c i v) (request_headers c)"
  shows "\<not> handle_ok a \<Longrightarrow> fst (fetch_from_registry net c now i v) = Inl CurlInitFailed"
    and "handle_ok a \<Longrightarrow> res a \<noteq> 0 \<Longrightarrow>
           fst (fetch_from_registry net c now i v) = Inl (CurlRequestFailed (res a))"
    and "handle_ok a \<Longrightarrow> res a = 0 \<Longrightarrow> http_code a \<noteq> 200 \<Longrightarrow>
           fst (fetch_from_registry net c now i v) = Inl (HttpFailed (http_code a))"
    and "handle_ok a \<Longrightarrow> res a = 0 \<Longrightarrow> http_code a = 200 \<Longrightarrow> parsed a = None \<Longrightarrow>
           fst (fetch_from_registry net c now i v) = Inl ParseError"
    and "handle_ok a \<Longrightarrow> res a = 0 \<Longrightarrow> http_code a = 200 \<Longrightarrow> parsed a = Some b \<Longrightarrow>
           fst (fetch_from_registry net c now i v)
             = (case index_mut b ''schema'' of Inl x \<Rightarrow> Inl x | Inr (_, d) \<Rightarrow> Inr d)"
  using assms
  by (simp_all add: fetch_from_registry_def Let_def split: sum.splits prod.splits)

text \<open>
  C1. The time-to-live is 600 seconds. A lookup of a key whose document was stamped less
  than that ago returns that document, adds one to \<^verbatim>\<open>cache_hits_\<close> and changes nothing
  else. A lookup of a key without a document, or stamped at least that long ago, is what
  the registry path returns: it adds one to \<^verbatim>\<open>cache_misses_\<close> and to
  \<^verbatim>\<open>schema_fetches_\<close> and none to \<^verbatim>\<open>cache_hits_\<close>; it returns the \<^verbatim>\<open>schema\<close> member
  of a 200 answer; and a document it returns is stored under the key with the time of the
  call, so that every later lookup less than the time-to-live after it returns exactly
  that document.
\<close>

theorem fetch_schema_freshness:
  "cache_ttl = 600 * 1000000000 \<and>
   (map_of (schema_cache c) (cache_key_of i v) = Some doc \<and>
    map_of (cache_timestamps c) (cache_key_of i v) = Some t \<and> now - t < cache_ttl \<longrightarrow>
      fetch_schema net c now i v = (Inr doc, c\<lparr>cache_hits := cache_hits c + 1\<rparr>)) \<and>
   (map_of (schema_cache c) (cache_key_of i v) = None \<or>
    (map_of (cache_timestamps c) (cache_key_of i v) = Some t \<and> cache_ttl \<le> now - t) \<longrightarrow>
      fetch_schema net c now i v = fetch_from_registry net c now i v \<and>
      cache_misses (snd (fetch_schema net c now i v)) = cache_misses c + 1 \<and>
      schema_fetches (snd (fetch_schema net c now i v)) = schema_fetches c + 1 \<and>
      cache_hits (snd (fetch_schema net c now i v)) = cache_hits c \<and>
      (\<forall>body d. net (request_url c i v) (request_headers c) = ok_body (JObject body) \<and>
              map_of body ''schema'' = Some d \<longrightarrow>
         fst (fetch_schema net c now i v) = Inr d) \<and>
      (\<forall>d c'. fetch_schema net c now i v = (Inr d, c') \<longrightarrow>
         map_of (schema_cache c') (cache_key_of i v) = Some d \<and>
         map_of (cache_timestamps c') (cache_key_of i v) = Some now \<and>
         (\<forall>net' now'. now' - now < cache_ttl \<longrightarrow>
            fetch_schema net' c' now' i v = (Inr d, c'\<lparr>cache_hits := cache_hits c' + 1\<rparr>))))"
proof (intro conjI impI allI)
  show "cache_ttl = 600 * 1000000000" by (simp add: cache_ttl_def)
next
  assume "map_of (schema_cache c) (cache_key_of i v) = Some doc \<and>
    map_of (cache_timestamps c) (cache_key_of i v) = Some t \<and> now - t < cache_ttl"
  then show "fetch_schema net c now i v = (Inr doc, c\<lparr>cache_hits := cache_hits c + 1\<rparr>)"
    by (simp add: hit_step)
next
  assume m: "map_of (schema_cache c) (cache_key_of i v) = None \<or>
    (map_of (cache_timestamps c) (cache_key_of i v) = Some t \<and> cache_ttl \<le> now - t)"
  note eq = miss_step[OF m, of net]
  show "fetch_schema net c now i v = fetch_from_registry net c now i v" by (rule eq)
  show "cache_misses (snd (fetch_schema net c now i v)) = cache_misses c + 1"
    "schema_fetches (snd (fetch_schema net c now i v)) = schema_fetches c + 1"
    "cache_hits (snd (fetch_schema net c now i v)) = cache_hits c"
    by (simp_all add: eq registry_counters)
  {
    fix body d
    assume "net (request_url c i v) (request_headers c) = ok_body (JObject body) \<and>
              map_of body ''schema'' = Some d"
    then show "fst (fetch_schema net c now i v) = Inr d"
      by (simp add: eq fetch_from_registry_def ok_body_def index_mut_def)
  }
  {
    fix d c'
    assume "fetch_schema net c now i v = (Inr d, c')"
    then have c': "c' = c\<lparr>cache_misses := cache_misses c + 1,
            schema_fetches := schema_fetches c + 1,
            schema_cache := AList.update (cache_key_of i v) d (schema_cache c),
            cache_timestamps := AList.update (cache_key_of i v) now (cache_timestamps c)\<rparr>"
      using registry_success by (simp add: eq)
    then show stored: "map_of (schema_cache c') (cache_key_of i v) = Some d"
      and stamped: "map_of (cache_timestamps c') (cache_key_of i v) = Some now"
      by (simp_all add: update_conv')
    fix net' now'
    assume "now' - now < cache_ttl"
    with stored stamped
    show "fetch_schema net' c' now' i v = (Inr d, c'\<lparr>cache_hits := cache_hits c' + 1\<rparr>)"
      by (rule hit_step)
  }
qed

lemma consistent_timestamp:
  assumes "cache_consistent c" "map_of (schema_cache c) k = Some doc"
  shows "\<exists>t. map_of (cache_timestamps c) k = Some t"
proof -
  from assms(2) have "k \<in> fst ` set (schema_cache c)"
    by (metis map_of_eq_None_iff option.distinct(1))
  with assms(1) have "k \<in> fst ` set (cache_timestamps c)"
    unfolding cache_consistent_def by blast
  then show ?thesis
    by (metis map_of_eq_None_iff not_Some_eq)
qed

lemma failure_is_miss:
  assumes "cache_consistent c" "fetch_schema net c now i v = (Inl e, c')"
  shows "map_of (schema_cache c) (cache_key_of i v) = None \<or>
         (\<exists>t. map_of (cache_timestamps c) (cache_key_of i v) = Some t \<and> cache_ttl \<le> now - t)"
proof (cases "map_of (schema_cache c) (cache_key_of i v)")
  case None
  then show ?thesis by simp
next
  case (Some doc)
  with assms(1) obtain t where t: "map_of (cache_timestamps c) (cache_key_of i v) = Some t"
    using consistent_timestamp by blast
  have "\<not> now - t < cache_ttl"
  proof
    assume "now - t < cache_ttl"
    from hit_step[OF Some t this, of net] assms(2) show False by simp
  qed
  with t show ?thesis by simp
qed

text \<open>
  C7. In a consistent cache, a call of \<^verbatim>\<open>fetch_schema\<close> that throws leaves both maps of
  the cache as they were, throws what the registry path threw, and every later call for
  the same key goes to the registry again. A lookup that misses throws the error of the
  transport when \<^verbatim>\<open>curl_easy_perform\<close> fails, the error of the status when the status is
  not 200, and the parse error when the body does not parse.
\<close>

theorem fetch_failure_not_cached:
  assumes "cache_consistent c"
  shows "(fetch_schema net c now i v = (Inl e, c') \<longrightarrow>
           schema_cache c' = schema_cache c \<and> cache_timestamps c' = cache_timestamps c \<and>
           fetch_from_registry net c now i v = (Inl e, c') \<and>
           (\<forall>net' now'. now \<le> now' \<longrightarrow>
              fetch_schema net' c' now' i v = fetch_from_registry net' c' now' i v)) \<and>
         (map_of (schema_cache c) (cache_key_of i v) = None \<or>
          (map_of (cache_timestamps c) (cache_key_of i v) = Some t \<and> cache_ttl \<le> now - t) \<longrightarrow>
           (\<forall>a. a = net (request_url c i v) (request_headers c) \<longrightarrow>
              (handle_ok a \<and> res a \<noteq> 0 \<longrightarrow>
                 fst (fetch_schema net c now i v) = Inl (CurlRequestFailed (res a))) \<and>
              (handle_ok a \<and> res a = 0 \<and> http_code a \<noteq> 200 \<longrightarrow>
                 fst (fetch_schema net c now i v) = Inl (HttpFailed (http_code a))) \<and>
              (handle_ok a \<and> res a = 0 \<and> http_code a = 200 \<and> parsed a = None \<longrightarrow>
                 fst (fetch_schema net c now i v) = Inl ParseError)))"
proof (intro conjI impI allI)
  assume f: "fetch_schema net c now i v = (Inl e, c')"
  from failure_is_miss[OF assms f] obtain t0 where
    m: "map_of (schema_cache c) (cache_key_of i v) = None \<or>
        (map_of (cache_timestamps c) (cache_key_of i v) = Some t0 \<and> cache_ttl \<le> now - t0)"
    by blast
  from miss_step[OF m, of net] f
  show r: "fetch_from_registry net c now i v = (Inl e, c')" by simp
  from registry_failure[OF r]
  show same: "schema_cache c' = schema_cache c" "cache_timestamps c' = cache_timestamps c"
    by simp_all
  fix net' now'
  assume "now \<le> (now' :: int)"
  with m same have "map_of (schema_cache c') (cache_key_of i v) = None \<or>
        (map_of (cache_timestamps c') (cache_key_of i v) = Some t0 \<and> cache_ttl \<le> now' - t0)"
    by auto
  then show "fetch_schema net' c' now' i v = fetch_from_registry net' c' now' i v"
    by (rule miss_step)
next
  fix a
  assume m: "map_of (schema_cache c) (cache_key_of i v) = None \<or>
    (map_of (cache_timestamps c) (cache_key_of i v) = Some t \<and> cache_ttl \<le> now - t)"
    and a: "a = net (request_url c i v) (request_headers c)"
  note eq = miss_step[OF m, of net]
  {
    assume "handle_ok a \<and> res a \<noteq> 0"
    then show "fst (fetch_schema net c now i v) = Inl (CurlRequestFailed (res a))"
      using registry_answer(2)[where net = net and now = now, OF a] by (simp add: eq)
  }
  {
    assume "handle_ok a \<and> res a = 0 \<and> http_code a \<noteq> 200"
    then show "fst (fetch_schema net c now i v) = Inl (HttpFailed (http_code a))"
      using registry_answer(3)[where net = net and now = now, OF a] by (simp add: eq)
  }
  {
    assume "handle_ok a \<and> res a = 0 \<and> http_code a = 200 \<and> parsed a = None"
    then show "fst (fetch_schema net c now i v) = Inl ParseError"
      using registry_answer(4)[where net = net and now = now, OF a] by (simp add: eq)
  }
qed

text \<open>
  C5, as the code has it. On a miss answered with status 200: a body that does not parse
  throws the parse error; a parsed body that is neither an object nor null throws type
  error 305; an object with a \<^verbatim>\<open>schema\<close> member returns and caches that member; null, or
  an object without a \<^verbatim>\<open>schema\<close> member, returns and caches the null document.
\<close>

theorem fetch_schema_body_shapes:
  assumes "map_of (schema_cache c) (cache_key_of i v) = None \<or>
           (map_of (cache_timestamps c) (cache_key_of i v) = Some t \<and> cache_ttl \<le> now - t)"
    and "net (request_url c i v) (request_headers c)
           = \<lparr>handle_ok = True, res = 0, http_code = 200, parsed = p\<rparr>"
    and "c1 = c\<lparr>cache_misses := cache_misses c + 1, schema_fetches := schema_fetches c + 1\<rparr>"
  shows "(p = None \<longrightarrow> fetch_schema net c now i v = (Inl ParseError, c1)) \<and>
         (\<forall>b. p = Some b \<and> b \<noteq> JNull \<and> (\<forall>kvs. b \<noteq> JObject kvs) \<longrightarrow>
            fetch_schema net c now i v = (Inl (TypeError 305), c1)) \<and>
         (\<forall>kvs d. p = Some (JObject kvs) \<and> map_of kvs ''schema'' = Some d \<longrightarrow>
            fetch_schema net c now i v
              = (Inr d, c1\<lparr>schema_cache := AList.update (cache_key_of i v) d (schema_cache c),
                          cache_timestamps :=
                            AList.update (cache_key_of i v) now (cache_timestamps c)\<rparr>)) \<and>
         (p = Some JNull \<or> (\<exists>kvs. p = Some (JObject kvs) \<and> map_of kvs ''schema'' = None) \<longrightarrow>
            fetch_schema net c now i v
              = (Inr JNull,
                 c1\<lparr>schema_cache := AList.update (cache_key_of i v) JNull (schema_cache c),
                    cache_timestamps :=
                      AList.update (cache_key_of i v) now (cache_timestamps c)\<rparr>))"
proof -
  note eq = miss_step[OF assms(1), of net]
  have 1: "p = None \<longrightarrow> fetch_schema net c now i v = (Inl ParseError, c1)"
    using assms(2,3) by (simp add: eq fetch_from_registry_def)
  have 2: "\<forall>b. p = Some b \<and> b \<noteq> JNull \<and> (\<forall>kvs. b \<noteq> JObject kvs) \<longrightarrow>
            fetch_schema net c now i v = (Inl (TypeError 305), c1)"
  proof (intro allI impI)
    fix b
    assume "p = Some b \<and> b \<noteq> JNull \<and> (\<forall>kvs. b \<noteq> JObject kvs)"
    then show "fetch_schema net c now i v = (Inl (TypeError 305), c1)"
      using assms(2,3) by (cases b) (simp_all add: eq fetch_from_registry_def index_mut_def)
  qed
  have 3: "\<forall>kvs d. p = Some (JObject kvs) \<and> map_of kvs ''schema'' = Some d \<longrightarrow>
            fetch_schema net c now i v
              = (Inr d, c1\<lparr>schema_cache := AList.update (cache_key_of i v) d (schema_cache c),
                          cache_timestamps :=
                            AList.update (cache_key_of i v) now (cache_timestamps c)\<rparr>)"
    using assms(2,3) by (simp add: eq fetch_from_registry_def index_mut_def)
  have 4: "p = Some JNull \<or> (\<exists>kvs. p = Some (JObject kvs) \<and> map_of kvs ''schema'' = None) \<longrightarrow>
            fetch_schema net c now i v
              = (Inr JNull,
                 c1\<lparr>schema_cache := AList.update (cache_key_of i v) JNull (schema_cache c),
                    cache_timestamps :=
                      AList.update (cache_key_of i v) now (cache_timestamps c)\<rparr>)"
    using assms(2,3) by (auto simp: eq fetch_from_registry_def index_mut_def)
  from 1 2 3 4 show ?thesis by blast
qed

text \<open>
  C5 as stated fails: the body \<^verbatim>\<open>{}\<close> has no \<^verbatim>\<open>schema\<close> member, and the call returns
  the null document and caches it.
\<close>

theorem missing_schema_field_counterexample:
  "fetch_schema (answering (ok_body (JObject []))) (new_client ''http://localhost:8000'' [])
     0 ''ticks_v1'' []
     = (Inr JNull,
        \<lparr>base_url = ''http://localhost:8000'', auth_token = [],
         schema_cache = [(''ticks_v1'', JNull)], cache_timestamps = [(''ticks_v1'', 0)],
         cache_hits = 0, cache_misses = 1, schema_fetches = 1\<rparr>)"
  by (simp add: fetch_schema_def fetch_from_registry_def new_client_def answering_def
      ok_body_def index_mut_def cache_key_of_def)

subsection \<open>Consistency of the two maps, and what a sweep removes\<close>

lemma cache_consistent_new: "cache_consistent (new_client url token)"
  by (simp add: cache_consistent_def new_client_def)

lemma cache_consistent_registry:
  assumes "cache_consistent c"
  shows "cache_consistent (snd (fetch_from_registry net c now i v))"
proof (cases "fst (fetch_from_registry net c now i v)")
  case (Inl e)
  then have "fetch_from_registry net c now i v = (Inl e, snd (fetch_from_registry net c now i v))"
    by (metis prod.collapse)
  from registry_failure[OF this] assms show ?thesis
    by (simp add: cache_consistent_def)
next
  case (Inr d)
  then have "fetch_from_registry net c now i v = (Inr d, snd (fetch_from_registry net c now i v))"
    by (metis prod.collapse)
  from registry_success[OF this] assms show ?thesis
    by (auto simp: cache_consistent_def dom_update)
qed

lemma cache_consistent_fetch:
  assumes "cache_consistent c"
  shows "cache_consistent (snd (fetch_schema net c now i v))"
proof (cases "map_of (schema_cache c) (cache_key_of i v)")
  case None
  then show ?thesis
    using cache_consistent_registry[OF assms] by (simp add: fetch_schema_def)
next
  case (Some doc)
  with assms obtain t where t: "map_of (cache_timestamps c) (cache_key_of i v) = Some t"
    using consistent_timestamp by blast
  show ?thesis
  proof (cases "now - t < cache_ttl")
    case True
    from hit_step[OF Some t True, of net] assms show ?thesis
      by (simp add: cache_consistent_def)
  next
    case False
    with t have "fetch_schema net c now i v = fetch_from_registry net c now i v"
      using miss_step[of c i v t now net] by simp
    then show ?thesis using cache_consistent_registry[OF assms] by simp
  qed
qed

lemma erase_keys_caches:
  "schema_cache (erase_keys keys c) = foldl (\<lambda>al k. AList.delete k al) (schema_cache c) keys"
  "cache_timestamps (erase_keys keys c)
     = foldl (\<lambda>al k. AList.delete k al) (cache_timestamps c) keys"
  by (induction keys arbitrary: c) simp_all

lemma map_of_deletes:
  "map_of (foldl (\<lambda>al k. AList.delete k al) al keys) k
     = (if k \<in> set keys then None else map_of al k)"
  by (induction keys arbitrary: al) (simp_all add: delete_conv')

lemma keys_deletes:
  "fst ` set (foldl (\<lambda>al k. AList.delete k al) al keys) = fst ` set al - set keys"
proof (induction keys arbitrary: al)
  case Nil
  show ?case by simp
next
  case (Cons k keys)
  have "fst ` set (AList.delete k al) = fst ` set al - {k}"
    using delete_keys[of k al] by (metis list.set_map set_removeAll)
  with Cons show ?case by auto
qed

lemma cache_consistent_sweep:
  assumes "cache_consistent c"
  shows "cache_consistent (sweep_expired c now)"
  using assms
  by (auto simp: cache_consistent_def sweep_expired_def erase_keys_caches keys_deletes)

lemma expired_keys_set:
  "set (expired_keys now ts) = {k. \<exists>t. (k, t) \<in> set ts \<and> cache_ttl < now - t}"
  by (induction now ts rule: expired_keys.induct) auto

lemma sweep_expired_lookup:
  assumes "distinct (map fst (cache_timestamps c))"
  shows "map_of (cache_timestamps (sweep_expired c now)) k
           = (case map_of (cache_timestamps c) k of
                None \<Rightarrow> None
              | Some t \<Rightarrow> if cache_ttl < now - t then None else Some t)"
    and "map_of (schema_cache (sweep_expired c now)) k
           = (case map_of (cache_timestamps c) k of
                None \<Rightarrow> map_of (schema_cache c) k
              | Some t \<Rightarrow> if cache_ttl < now - t then None else map_of (schema_cache c) k)"
proof -
  have "k \<in> set (expired_keys now (cache_timestamps c))
          \<longleftrightarrow> (\<exists>t. map_of (cache_timestamps c) k = Some t \<and> cache_ttl < now - t)"
    using assms by (auto simp: expired_keys_set)
  then show "map_of (cache_timestamps (sweep_expired c now)) k
           = (case map_of (cache_timestamps c) k of
                None \<Rightarrow> None
              | Some t \<Rightarrow> if cache_ttl < now - t then None else Some t)"
    and "map_of (schema_cache (sweep_expired c now)) k
           = (case map_of (cache_timestamps c) k of
                None \<Rightarrow> map_of (schema_cache c) k
              | Some t \<Rightarrow> if cache_ttl < now - t then None else map_of (schema_cache c) k)"
    by (auto simp: sweep_expired_def erase_keys_caches map_of_deletes split: option.splits)
qed

text \<open>
  C2 at the boundary: a document stamped exactly the time-to-live ago is expired for
  \<^verbatim>\<open>fetch_schema\<close> (the lookup is a miss), and the sweep, which compares with \<open>>\<close>,
  leaves it in the cache.
\<close>

theorem sweep_keeps_entry_at_ttl:
  "cache_ttl \<le> 600 * 1000000000 - 0 \<and>
   sweep_expired boundary_client (600 * 1000000000) = boundary_client \<and>
   map_of (schema_cache (sweep_expired boundary_client (600 * 1000000000))) ''ticks_v1''
     = Some ticks_document \<and>
   cache_misses (snd (fetch_schema ticks_registry boundary_client (600 * 1000000000)
                        ''ticks_v1'' [])) = 1"
  by (simp add: sweep_expired_def boundary_client_def local_client_def new_client_def
      cache_ttl_def fetch_schema_def timestamp_at_def cache_key_of_def registry_counters)

subsection \<open>Statistics and cache keys\<close>

text \<open>
  C6: with both counters at zero the snapshot divides zero by zero; the ratio is NaN, not 0.
\<close>

theorem hit_ratio_without_requests:
  "stat_cache_hit_ratio (get_stats local_client) = NaN \<and> NaN \<noteq> Finite 0"
  by (simp add: get_stats_def local_client_def new_client_def double_div_def)

lemma cache_key_collision: "cache_key_of ''a:b'' [] = cache_key_of ''a'' ''b''"
  by (simp add: cache_key_of_def)

text \<open>
  C10. The key of an identifier without a version is the identifier; with a version it is
  the identifier, a colon and the version, which differs from the key of the same
  identifier without a version. The identifier \<open>a:b\<close> without a version and the
  identifier \<open>a\<close> with the version \<open>b\<close> have the same key, and a fresh document under it
  answers the lookups of both.
\<close>

theorem cache_key_of_shape:
  "cache_key_of i [] = i \<and>
   (v \<noteq> [] \<longrightarrow> cache_key_of i v = i @ '':'' @ v) \<and>
   (v \<noteq> [] \<longrightarrow> cache_key_of i v \<noteq> cache_key_of i []) \<and>
   cache_key_of ''a:b'' [] = cache_key_of ''a'' ''b'' \<and>
   (map_of (schema_cache c) (cache_key_of ''a'' ''b'') = Some doc \<and>
    map_of (cache_timestamps c) (cache_key_of ''a'' ''b'') = Some t \<and> now - t < cache_ttl \<longrightarrow>
      fetch_schema net c now ''a:b'' [] = (Inr doc, c\<lparr>cache_hits := cache_hits c + 1\<rparr>) \<and>
      fetch_schema net c now ''a'' ''b'' = (Inr doc, c\<lparr>cache_hits := cache_hits c + 1\<rparr>))"
proof -
  have "cache_key_of i [] = i" by (simp add: cache_key_of_def)
  moreover have "v \<noteq> [] \<longrightarrow> cache_key_of i v = i @ '':'' @ v" by (simp add: cache_key_of_def)
  moreover have "v \<noteq> [] \<longrightarrow> cache_key_of i v \<noteq> cache_key_of i []"
    by (simp add: cache_key_of_def)
  moreover note cache_key_collision
  moreover have "map_of (schema_cache c) (cache_key_of ''a'' ''b'') = Some doc \<and>
    map_of (cache_timestamps c) (cache_key_of ''a'' ''b'') = Some t \<and> now - t < cache_ttl \<longrightarrow>
      fetch_schema net c now ''a:b'' [] = (Inr doc, c\<lparr>cache_hits := cache_hits c + 1\<rparr>) \<and>
      fetch_schema net c now ''a'' ''b'' = (Inr doc, c\<lparr>cache_hits := cache_hits c + 1\<rparr>)"
    using hit_step[of c "''a''" "''b''" doc t now net] hit_step[of c "''a:b''" "[]" doc t now net]
      cache_key_collision
    by simp
  ultimately show ?thesis by blast
qed

subsection \<open>The properties on the scenarios\<close>

lemmas example_simps =
  local_client_def new_client_def ticks_registry_def unreachable_registry_def answering_def
  ok_body_def ticks_document_def cache_key_of_def boundary_client_def

theorem fetch_schema_freshness_witness:
  "fst (fetch_schema ticks_registry local_client 0 ''ticks_v1'' []) = Inr ticks_document \<and>
   cache_misses (snd (fetch_schema ticks_registry local_client 0 ''ticks_v1'' [])) = 1 \<and>
   schema_fetches (snd (fetch_schema ticks_registry local_client 0 ''ticks_v1'' [])) = 1 \<and>
   cache_hits (snd (fetch_schema ticks_registry local_client 0 ''ticks_v1'' [])) = 0 \<and>
   fst (fetch_schema unreachable_registry
          (snd (fetch_schema ticks_registry local_client 0 ''ticks_v1'' []))
          599000000000 ''ticks_v1'' []) = Inr ticks_document \<and>
   fetch_schema unreachable_registry boundary_client 599000000000 ''ticks_v1'' []
     = (Inr ticks_document, boundary_client\<lparr>cache_hits := 1\<rparr>)"
proof -
  let ?r = "fetch_schema ticks_registry local_client 0 ''ticks_v1'' []"
  have miss: "map_of (schema_cache local_client) (cache_key_of ''ticks_v1'' []) = None \<or>
    (map_of (cache_timestamps local_client) (cache_key_of ''ticks_v1'' []) = Some 0 \<and>
     cache_ttl \<le> 0 - 0)"
    by (simp add: example_simps)
  have answer: "ticks_registry (request_url local_client ''ticks_v1'' [])
                  (request_headers local_client)
                  = ok_body (JObject [(''schema'', ticks_document)]) \<and>
                map_of [(''schema'', ticks_document)] ''schema'' = Some ticks_document"
    by (simp add: ticks_registry_def answering_def)
  note T = fetch_schema_freshness
    [where c = local_client and i = "''ticks_v1''" and v = "[]" and t = 0 and now = 0
       and net = ticks_registry]
  from T miss have counters:
    "cache_misses (snd ?r) = cache_misses local_client + 1"
    "schema_fetches (snd ?r) = schema_fetches local_client + 1"
    "cache_hits (snd ?r) = cache_hits local_client"
    by blast+
  from T miss answer have d: "fst ?r = Inr ticks_document" by blast
  then have "?r = (Inr ticks_document, snd ?r)" by (metis prod.collapse)
  with T miss have "\<forall>net' now'. now' - 0 < cache_ttl \<longrightarrow>
      fetch_schema net' (snd ?r) now' ''ticks_v1'' []
        = (Inr ticks_document, (snd ?r)\<lparr>cache_hits := cache_hits (snd ?r) + 1\<rparr>)"
    by blast
  then have again: "fst (fetch_schema unreachable_registry (snd ?r) 599000000000 ''ticks_v1'' [])
      = Inr ticks_document"
    by (simp add: cache_ttl_def)
  have hit: "map_of (schema_cache boundary_client) (cache_key_of ''ticks_v1'' [])
               = Some ticks_document \<and>
             map_of (cache_timestamps boundary_client) (cache_key_of ''ticks_v1'' []) = Some 0 \<and>
             599000000000 - 0 < cache_ttl"
    by (simp add: example_simps cache_ttl_def)
  from fetch_schema_freshness
    [where c = boundary_client and i = "''ticks_v1''" and v = "[]" and t = 0
       and now = 599000000000 and net = unreachable_registry and doc = ticks_document] hit
  have "fetch_schema unreachable_registry boundary_client 599000000000 ''ticks_v1'' []
     = (Inr ticks_document, boundary_client\<lparr>cache_hits := cache_hits boundary_client + 1\<rparr>)"
    by blast
  moreover have "cache_hits boundary_client = 0" "cache_misses local_client = 0"
    "schema_fetches local_client = 0" "cache_hits local_client = 0"
    by (simp_all add: example_simps)
  ultimately show ?thesis using counters d again by simp
qed

theorem fetch_failure_not_cached_witness:
  "cache_consistent local_client \<and>
   fst (fetch_schema unreachable_registry local_client 0 ''ticks_v1'' [])
     = Inl (CurlRequestFailed 7) \<and>
   schema_cache (snd (fetch_schema unreachable_registry local_client 0 ''ticks_v1'' [])) = [] \<and>
   cache_timestamps (snd (fetch_schema unreachable_registry local_client 0 ''ticks_v1'' [])) = [] \<and>
   fetch_schema ticks_registry
     (snd (fetch_schema unreachable_registry local_client 0 ''ticks_v1'' [])) 5 ''ticks_v1'' []
     = fetch_from_registry ticks_registry
         (snd (fetch_schema unreachable_registry local_client 0 ''ticks_v1'' [])) 5 ''ticks_v1'' []"
proof -
  let ?r = "fetch_schema unreachable_registry local_client 0 ''ticks_v1'' []"
  have inv: "cache_consistent local_client"
    by (simp add: cache_consistent_def example_simps)
  have miss: "map_of (schema_cache local_client) (cache_key_of ''ticks_v1'' []) = None \<or>
    (map_of (cache_timestamps local_client) (cache_key_of ''ticks_v1'' []) = Some 0 \<and>
     cache_ttl \<le> 0 - 0)"
    by (simp add: example_simps)
  have answer: "handle_ok (unreachable_registry (request_url local_client ''ticks_v1'' [])
                  (request_headers local_client)) \<and>
                res (unreachable_registry (request_url local_client ''ticks_v1'' [])
                  (request_headers local_client)) = 7"
    by (simp add: unreachable_registry_def answering_def)
  note T = fetch_failure_not_cached
    [OF inv, where net = unreachable_registry and now = 0 and i = "''ticks_v1''" and v = "[]"
       and t = 0 and e = "CurlRequestFailed 7" and c' = "snd ?r"]
  from conjunct2[OF T, THEN mp, OF miss] answer
  have e: "fst ?r = Inl (CurlRequestFailed 7)" by simp
  then have "?r = (Inl (CurlRequestFailed 7), snd ?r)" by (metis prod.collapse)
  with T have "schema_cache (snd ?r) = schema_cache local_client"
    "cache_timestamps (snd ?r) = cache_timestamps local_client"
    "\<forall>net' now'. 0 \<le> now' \<longrightarrow>
       fetch_schema net' (snd ?r) now' ''ticks_v1'' []
         = fetch_from_registry net' (snd ?r) now' ''ticks_v1'' []"
    by blast+
  moreover have "schema_cache local_client = []" "cache_timestamps local_client = []"
    by (simp_all add: example_simps)
  ultimately show ?thesis using inv e by simp
qed

theorem fetch_schema_body_shapes_witness:
  "fetch_schema (answering (ok_body (JObject []))) local_client 0 ''ticks_v1'' []
     = (Inr JNull,
        local_client\<lparr>cache_misses := 1, schema_fetches := 1,
                      schema_cache := [(''ticks_v1'', JNull)],
                      cache_timestamps := [(''ticks_v1'', 0)]\<rparr>) \<and>
   fetch_schema
     (answering \<lparr>handle_ok = True, res = 0, http_code = 200, parsed = None\<rparr>)
     local_client 0 ''ticks_v1'' []
     = (Inl ParseError, local_client\<lparr>cache_misses := 1, schema_fetches := 1\<rparr>) \<and>
   fetch_schema (answering (ok_body (JArray []))) local_client 0 ''ticks_v1'' []
     = (Inl (TypeError 305), local_client\<lparr>cache_misses := 1, schema_fetches := 1\<rparr>)"
proof -
  have miss: "map_of (schema_cache local_client) (cache_key_of ''ticks_v1'' []) = None \<or>
    (map_of (cache_timestamps local_client) (cache_key_of ''ticks_v1'' []) = Some 0 \<and>
     cache_ttl \<le> 0 - 0)"
    by (simp add: example_simps)
  have c1: "local_client\<lparr>cache_misses := 1, schema_fetches := 1\<rparr>
      = local_client\<lparr>cache_misses := cache_misses local_client + 1,
                      schema_fetches := schema_fetches local_client + 1\<rparr>"
    by (simp add: example_simps)
  have a: "answering (ok_body b) (request_url local_client ''ticks_v1'' [])
             (request_headers local_client)
             = \<lparr>handle_ok = True, res = 0, http_code = 200, parsed = Some b\<rparr>" for b
    by (simp add: answering_def ok_body_def)
  have n: "answering \<lparr>handle_ok = True, res = 0, http_code = 200, parsed = None\<rparr>
             (request_url local_client ''ticks_v1'' []) (request_headers local_client)
             = \<lparr>handle_ok = True, res = 0, http_code = 200, parsed = None\<rparr>"
    by (simp add: answering_def)
  have k: "cache_key_of ''ticks_v1'' [] = ''ticks_v1''" "schema_cache local_client = []"
    "cache_timestamps local_client = []"
    by (simp_all add: example_simps)
  from fetch_schema_body_shapes
    [where net = "answering (ok_body (JObject []))" and now = 0, OF miss a c1]
  have 1: "fetch_schema (answering (ok_body (JObject []))) local_client 0 ''ticks_v1'' []
     = (Inr JNull,
        local_client\<lparr>cache_misses := 1, schema_fetches := 1,
                      schema_cache := [(''ticks_v1'', JNull)],
                      cache_timestamps := [(''ticks_v1'', 0)]\<rparr>)"
    by (simp add: k)
  from fetch_schema_body_shapes
    [where net = "answering \<lparr>handle_ok = True, res = 0, http_code = 200, parsed = None\<rparr>"
       and now = 0, OF miss n c1]
  have 2: "fetch_schema
     (answering \<lparr>handle_ok = True, res = 0, http_code = 200, parsed = None\<rparr>)
     local_client 0 ''ticks_v1'' []
     = (Inl ParseError, local_client\<lparr>cache_misses := 1, schema_fetches := 1\<rparr>)"
    by simp
  from fetch_schema_body_shapes
    [where net = "answering (ok_body (JArray []))" and now = 0, OF miss a c1]
  have 3: "fetch_schema (answering (ok_body (JArray []))) local_client 0 ''ticks_v1'' []
     = (Inl (TypeError 305), local_client\<lparr>cache_misses := 1, schema_fetches := 1\<rparr>)"
    by simp
  from 1 2 3 show ?thesis by blast
qed

theorem cache_key_of_shape_witness:
  "cache_key_of ''ticks_v1'' ''2'' = ''ticks_v1:2'' \<and>
   cache_key_of ''ticks_v1'' ''2'' \<noteq> cache_key_of ''ticks_v1'' [] \<and>
   fetch_schema unreachable_registry
     (local_client\<lparr>schema_cache := [(''a:b'', ticks_document)],
                   cache_timestamps := [(''a:b'', 0)]\<rparr>) 5 ''a:b'' []
     = fetch_schema unreachable_registry
         (local_client\<lparr>schema_cache := [(''a:b'', ticks_document)],
                       cache_timestamps := [(''a:b'', 0)]\<rparr>) 5 ''a'' ''b'' \<and>
   fst (fetch_schema unreachable_registry
         (local_client\<lparr>schema_cache := [(''a:b'', ticks_document)],
                       cache_timestamps := [(''a:b'', 0)]\<rparr>) 5 ''a'' ''b'') = Inr ticks_document"
proof -
  let ?c = "local_client\<lparr>schema_cache := [(''a:b'', ticks_document)],
                       cache_timestamps := [(''a:b'', 0)]\<rparr>"
  have v: "''2'' \<noteq> []" by simp
  have h: "map_of (schema_cache ?c) (cache_key_of ''a'' ''b'') = Some ticks_document \<and>
    map_of (cache_timestamps ?c) (cache_key_of ''a'' ''b'') = Some 0 \<and> 5 - 0 < cache_ttl"
    by (simp add: cache_key_of_def cache_ttl_def)
  from cache_key_of_shape
    [where i = "''ticks_v1''" and v = "''2''" and c = ?c and doc = ticks_document and t = 0
       and now = 5 and net = unreachable_registry] v h
  show ?thesis by simp
qed

end
